theory Spec2Isabelle
  imports Complex_Main "HOL-Library.Multiset"
begin

section \<open>Data model\<close>

text \<open>
  The development embeds \<^verbatim>\<open>spec_advance\<close> (file \<^verbatim>\<open>ANNOTATED_spec_advance.c\<close>), the
  one-step particle advance of a 1-D electromagnetic particle-in-cell code.

  Number types. The C types \<^verbatim>\<open>float\<close> and \<^verbatim>\<open>double\<close> are modelled by \<^typ>\<open>real\<close>: every
  arithmetic operation is the exact one, rounding, overflow to infinity and NaN are not
  modelled, and nothing proved here speaks about them. The C type \<^verbatim>\<open>int\<close> is modelled by \<^typ>\<open>int\<close>; signed overflow is undefined
  behaviour in C, so there is no wrap-around to write out, and the results are about
  executions that stay inside the range of \<^verbatim>\<open>int\<close>.

  Struct members live in their own name space in C; here a member \<^verbatim>\<open>f\<close> of a particle is
  the selector \<open>part_f\<close>, a member of the species is \<open>spec_f\<close>, a member of a \<^verbatim>\<open>float3\<close> is
  \<open>f3_f\<close>, so that the locals \<^verbatim>\<open>ux\<close>, \<^verbatim>\<open>dx\<close>, ... of the source keep their names.
\<close>

record float3 =
  f3_x :: real
  f3_y :: real
  f3_z :: real

text \<open>A particle: the members \<^verbatim>\<open>ix\<close>, \<^verbatim>\<open>x\<close>, \<^verbatim>\<open>ux\<close>, \<^verbatim>\<open>uy\<close>, \<^verbatim>\<open>uz\<close> that the source reads and writes.\<close>

record t_part =
  part_ix :: int
  part_x :: real
  part_ux :: real
  part_uy :: real
  part_uz :: real

text \<open>
  Modelled from the spec: the declaration of the boundary-condition enumeration is not part
  of the source file; the source only compares \<^verbatim>\<open>bc_type\<close> with \<^verbatim>\<open>PART_BC_OPEN\<close>, and the
  specification names the two kinds periodic and absorbing/open.
\<close>

datatype part_bc = PART_BC_PERIODIC | PART_BC_OPEN

text \<open>
  The species. \<open>spec_part\<close> is the particle buffer (its length is the storage capacity),
  \<open>spec_np\<close> the number of live particles, which occupy the slots \<open>0 ..< spec_np\<close>.
  The flag \<^verbatim>\<open>moving_window\<close> (an \<^verbatim>\<open>int\<close> tested for being non-zero) is a \<^typ>\<open>bool\<close>.
\<close>

record t_species =
  spec_part :: "t_part list"
  spec_np :: int
  spec_dt :: real
  spec_dx :: real
  spec_q :: real
  spec_m_q :: real
  spec_nx :: int
  spec_energy :: real
  spec_iter :: int
  spec_moving_window :: bool
  spec_bc_type :: part_bc
  spec_n_sort :: int

text \<open>The field arrays handed to the interpolation; their element type is left open.\<close>

record 'f t_emf =
  E_part :: 'f
  B_part :: 'f

text \<open>
  The functions that \<^verbatim>\<open>spec_advance\<close> calls and the source file does not define are
  parameters of the model: \<^verbatim>\<open>interpolate_fld\<close> (a pure function of the field arrays and the
  particle, returning the pair \<open>(Ep, Bp)\<close>), \<^verbatim>\<open>ltrim\<close>, \<^verbatim>\<open>dep_current_zamb\<close> (a transformer of
  the current grid, whose type \<open>'c\<close> is left open), \<^verbatim>\<open>spec_move_window\<close> and \<^verbatim>\<open>spec_sort\<close>.
\<close>

record ('f, 'c) collab =
  interpolate_fld :: "'f \<Rightarrow> 'f \<Rightarrow> t_part \<Rightarrow> float3 \<times> float3"
  ltrim :: "real \<Rightarrow> int"
  dep_current_zamb :: "int \<Rightarrow> int \<Rightarrow> real \<Rightarrow> real \<Rightarrow> real \<Rightarrow> real \<Rightarrow> real \<Rightarrow> 'c \<Rightarrow> 'c"
  spec_move_window :: "t_species \<Rightarrow> t_species"
  spec_sort :: "t_species \<Rightarrow> t_species"

definition live :: "t_species \<Rightarrow> t_part list" where
  "live s = take (nat (spec_np s)) (spec_part s)"

definition norm3 :: "real \<Rightarrow> real \<Rightarrow> real \<Rightarrow> real" where
  "norm3 a b c = sqrt (a * a + b * b + c * c)"

definition zero3 :: float3 where
  "zero3 = \<lparr>f3_x = 0, f3_y = 0, f3_z = 0\<rparr>"

section \<open>The constants of a step (lines 22--27)\<close>

definition spec_tem :: "t_species \<Rightarrow> real" where
  "spec_tem s = 0.5 * spec_dt s / spec_m_q s"

definition spec_dt_dx :: "t_species \<Rightarrow> real" where
  "spec_dt_dx s = spec_dt s / spec_dx s"

definition spec_qnx :: "t_species \<Rightarrow> real" where
  "spec_qnx s = spec_q s * spec_dx s / spec_dt s"

section \<open>The body of the particle loop (lines 49--189)\<close>

text \<open>
  What one iteration computes for its particle: the particle as it is stored back
  (lines 125--127 and 187--188), and the values of the locals \<^verbatim>\<open>u2\<close>, \<^verbatim>\<open>gamma\<close>, of the
  term added to \<^verbatim>\<open>energy\<close> on line 90, and of \<^verbatim>\<open>di\<close>, \<^verbatim>\<open>dx\<close>, \<^verbatim>\<open>qvy\<close>, \<^verbatim>\<open>qvz\<close> handed to the
  current deposition.
\<close>

record push_result =
  pr_part :: t_part
  pr_u2 :: real
  pr_gamma :: real
  pr_energy :: real
  pr_di :: int
  pr_dx :: real
  pr_qvy :: real
  pr_qvz :: real

text \<open>
  The arguments \<open>Ep0\<close>, \<open>Bp0\<close> are the field samples that \<^verbatim>\<open>interpolate_fld\<close> returned for
  the particle. A later binding of a name shadows the earlier one, as the assignments of
  the source overwrite the local.
\<close>

definition advance_particle ::
  "(real \<Rightarrow> int) \<Rightarrow> real \<Rightarrow> real \<Rightarrow> real \<Rightarrow> float3 \<Rightarrow> float3 \<Rightarrow> t_part \<Rightarrow> push_result" where
  "advance_particle ltrim_f tem dt_dx q Ep0 Bp0 p =
    (let ux = part_ux p;
         uy = part_uy p;
         uz = part_uz p;
         Epx = f3_x Ep0 * tem;
         Epy = f3_y Ep0 * tem;
         Epz = f3_z Ep0 * tem;
         utx = ux + Epx;
         uty = uy + Epy;
         utz = uz + Epz;
         u2 = utx * utx + uty * uty + utz * utz;
         gamma = sqrt (1 + u2);
         e = u2 / (1 + gamma);
         gtem = tem / gamma;
         Bpx = f3_x Bp0 * gtem;
         Bpy = f3_y Bp0 * gtem;
         Bpz = f3_z Bp0 * gtem;
         otsq = 2 / (1 + Bpx * Bpx + Bpy * Bpy + Bpz * Bpz);
         ux = utx + uty * Bpz - utz * Bpy;
         uy = uty + utz * Bpx - utx * Bpz;
         uz = utz + utx * Bpy - uty * Bpx;
         Bpx = Bpx * otsq;
         Bpy = Bpy * otsq;
         Bpz = Bpz * otsq;
         utx = utx + (uy * Bpz - uz * Bpy);
         uty = uty + (uz * Bpx - ux * Bpz);
         utz = utz + (ux * Bpy - uy * Bpx);
         ux = utx + Epx;
         uy = uty + Epy;
         uz = utz + Epz;
         rg = 1 / sqrt (1 + ux * ux + uy * uy + uz * uz);
         dx = dt_dx * rg * ux;
         x1 = part_x p + dx;
         di = ltrim_f x1;
         x1 = x1 - of_int di;
         qvy = q * uy * rg;
         qvz = q * uz * rg
     in \<lparr>pr_part = p\<lparr>part_ux := ux, part_uy := uy, part_uz := uz,
                       part_x := x1, part_ix := part_ix p + di\<rparr>,
         pr_u2 = u2, pr_gamma = gamma, pr_energy = e,
         pr_di = di, pr_dx = dx, pr_qvy = qvy, pr_qvz = qvz\<rparr>)"

section \<open>The particle loop (lines 47--190)\<close>

text \<open>
  The loop runs \<open>i\<close> from 0 while \<open>i < np\<close>. An iteration reads the particle in slot \<open>i\<close>,
  obtains its field samples, runs the body, calls the current deposition with the cell
  index and the offset the particle had before the step, stores the particle back and adds
  its term to \<open>energy\<close>. The state of the loop is the species, the current grid and the
  accumulator \<open>energy\<close>.
\<close>

function advance_loop ::
  "('f, 'c) collab \<Rightarrow> 'f t_emf \<Rightarrow> real \<Rightarrow> real \<Rightarrow> real \<Rightarrow> int \<Rightarrow> t_species \<Rightarrow> 'c \<Rightarrow> real
   \<Rightarrow> t_species \<times> 'c \<times> real" where
  "advance_loop X emf tem dt_dx qnx i s cur energy =
    (if i < spec_np s then
       (let p = spec_part s ! nat i;
            (Ep, Bp) = interpolate_fld X (E_part emf) (B_part emf) p;
            r = advance_particle (ltrim X) tem dt_dx (spec_q s) Ep Bp p;
            cur' = dep_current_zamb X (part_ix p) (pr_di r) (part_x p) (pr_dx r)
                     qnx (pr_qvy r) (pr_qvz r) cur
        in advance_loop X emf tem dt_dx qnx (i + 1)
             (s\<lparr>spec_part := (spec_part s)[nat i := pr_part r]\<rparr>) cur'
             (energy + pr_energy r))
     else (s, cur, energy))"
  by pat_completeness auto
termination
  by (relation "measure (\<lambda>(X, emf, tem, dt_dx, qnx, i, s, cur, energy). nat (spec_np s - i))")
     auto

text \<open>The result of one iteration for the particle \<open>p\<close>, field samples included.\<close>

definition particle_result ::
  "('f, 'c) collab \<Rightarrow> 'f t_emf \<Rightarrow> real \<Rightarrow> real \<Rightarrow> real \<Rightarrow> t_part \<Rightarrow> push_result" where
  "particle_result X emf tem dt_dx q p =
    (let (Ep, Bp) = interpolate_fld X (E_part emf) (B_part emf) p
     in advance_particle (ltrim X) tem dt_dx q Ep Bp p)"

text \<open>The deposition call of one iteration, as a transformer of the current grid.\<close>

definition dep_particle ::
  "('f, 'c) collab \<Rightarrow> 'f t_emf \<Rightarrow> real \<Rightarrow> real \<Rightarrow> real \<Rightarrow> real \<Rightarrow> t_part \<Rightarrow> 'c \<Rightarrow> 'c" where
  "dep_particle X emf tem dt_dx qnx q p cur =
    (let r = particle_result X emf tem dt_dx q p
     in dep_current_zamb X (part_ix p) (pr_di r) (part_x p) (pr_dx r) qnx (pr_qvy r) (pr_qvz r) cur)"

text \<open>
  Lines 22--204: the constants, the loop, the stored energy and the iteration counter.
\<close>

definition spec_advance_particles ::
  "('f, 'c) collab \<Rightarrow> 'f t_emf \<Rightarrow> t_species \<Rightarrow> 'c \<Rightarrow> t_species \<times> 'c" where
  "spec_advance_particles X emf s cur =
    (let tem = spec_tem s;
         dt_dx = spec_dt_dx s;
         qnx = spec_qnx s;
         (s1, cur1, energy) = advance_loop X emf tem dt_dx qnx 0 s cur 0;
         s2 = s1\<lparr>spec_energy := spec_q s1 * spec_m_q s1 * energy * spec_dx s1\<rparr>;
         s3 = s2\<lparr>spec_iter := spec_iter s2 + 1\<rparr>
     in (s3, cur1))"

section \<open>Particles leaving the box (lines 208--234)\<close>

text \<open>
  The absorbing scan (lines 217--224). A particle whose cell index is outside \<open>[0, nx0)\<close> is
  overwritten by the particle in the last live slot, after \<^verbatim>\<open>np\<close> was decremented, and the
  scan stays at \<open>i\<close>; otherwise the scan moves on.
\<close>

function absorb_scan :: "int \<Rightarrow> int \<Rightarrow> t_species \<Rightarrow> t_species" where
  "absorb_scan nx0 i s =
    (if i < spec_np s then
       (if part_ix (spec_part s ! nat i) < 0 \<or> part_ix (spec_part s ! nat i) \<ge> nx0 then
          absorb_scan nx0 i
            (s\<lparr>spec_np := spec_np s - 1,
               spec_part := (spec_part s)[nat i := spec_part s ! nat (spec_np s - 1)]\<rparr>)
        else absorb_scan nx0 (i + 1) s)
     else s)"
  by pat_completeness auto
termination
  by (relation "measure (\<lambda>(nx0, i, s). nat (spec_np s - i))") auto

text \<open>The periodic wrap (lines 230--233).\<close>

function periodic_wrap :: "int \<Rightarrow> int \<Rightarrow> t_species \<Rightarrow> t_species" where
  "periodic_wrap nx0 i s =
    (if i < spec_np s then
       periodic_wrap nx0 (i + 1)
         (s\<lparr>spec_part := (spec_part s)[nat i := (spec_part s ! nat i)
              \<lparr>part_ix := part_ix (spec_part s ! nat i)
                  + ((if part_ix (spec_part s ! nat i) < 0 then nx0 else 0)
                     - (if part_ix (spec_part s ! nat i) \<ge> nx0 then nx0 else 0))\<rparr>]\<rparr>)
     else s)"
  by pat_completeness auto
termination
  by (relation "measure (\<lambda>(nx0, i, s). nat (spec_np s - i))") auto

declare advance_loop.simps [simp del] absorb_scan.simps [simp del]
  periodic_wrap.simps [simp del]

text \<open>
  The choice between the two (line 208), with the window move of line 212 before the scan.
  \<open>nx0\<close> is the cell count read at the start of \<^verbatim>\<open>spec_advance\<close> (line 27).
\<close>

definition move_window_if_set :: "('f, 'c) collab \<Rightarrow> t_species \<Rightarrow> t_species" where
  "move_window_if_set X s = (if spec_moving_window s then spec_move_window X s else s)"

definition check_boundaries :: "('f, 'c) collab \<Rightarrow> int \<Rightarrow> t_species \<Rightarrow> t_species" where
  "check_boundaries X nx0 s =
    (if spec_moving_window s \<or> spec_bc_type s = PART_BC_OPEN then
       absorb_scan nx0 0 (move_window_if_set X s)
     else periodic_wrap nx0 0 s)"

definition in_range :: "int \<Rightarrow> t_part \<Rightarrow> bool" where
  "in_range nx0 p \<longleftrightarrow> 0 \<le> part_ix p \<and> part_ix p < nx0"

text \<open>The update of line 231 on one particle.\<close>

definition wrap_ix :: "int \<Rightarrow> t_part \<Rightarrow> t_part" where
  "wrap_ix nx0 p = p\<lparr>part_ix := part_ix p + ((if part_ix p < 0 then nx0 else 0)
                                             - (if nx0 \<le> part_ix p then nx0 else 0))\<rparr>"

section \<open>Sorting and the whole step\<close>

text \<open>
  Lines 238--240. With \<open>n_sort > 0\<close>, the C remainder \<^verbatim>\<open>iter % n_sort\<close> is zero exactly when
  \<open>n_sort\<close> divides \<open>iter\<close>, which is when \<open>iter mod n_sort = 0\<close>.
\<close>

definition sort_if_due :: "('f, 'c) collab \<Rightarrow> t_species \<Rightarrow> t_species" where
  "sort_if_due X s =
    (if spec_n_sort s > 0 then
       (if spec_iter s mod spec_n_sort s = 0 then spec_sort X s else s)
     else s)"

text \<open>
  The whole of \<^verbatim>\<open>spec_advance\<close>. The timer and the two statistics counters of lines 18--19
  and 244--245 are left out: they are diagnostics that nothing else in the function depends
  on.
\<close>

definition spec_advance ::
  "('f, 'c) collab \<Rightarrow> 'f t_emf \<Rightarrow> t_species \<Rightarrow> 'c \<Rightarrow> t_species \<times> 'c" where
  "spec_advance X emf s cur =
    (let nx0 = spec_nx s;
         (s3, cur1) = spec_advance_particles X emf s cur;
         s4 = check_boundaries X nx0 s3;
         s5 = sort_if_due X s4
     in (s5, cur1))"

section \<open>The longitudinal current deposition\<close>

text \<open>
  Modelled from the spec: the function \<^verbatim>\<open>dep_current_zamb\<close> is called on line 180 and is not
  defined in the source file. The specification (section 4.3) says: without a cell crossing
  (\<open>di = 0\<close>) the longitudinal contribution is written once, to the home cell \<open>ix\<close>, and is
  \<open>qnx \<cdot> dx\<close>; with a crossing the trajectory is split at the cell boundary into two
  sub-segments, each confined to one cell (\<open>ix\<close>, then \<open>ix + di\<close>), and each deposited as a
  step of its own with its own displacement. The comment on line 168 gives the write of one
  sub-segment: \<^verbatim>\<open>J[vp[k].ix].x += qnx * vp[k].dx\<close>. Only this longitudinal component is
  modelled; the grid is a function from the cell index to the accumulated value.

  The in-cell offsets range over \<open>[lo, lo + 1)\<close>; the specification leaves \<open>lo\<close> open. The
  boundary crossed is the upper end of the range for a step to the right and the lower end
  for a step to the left.
\<close>

definition cell_boundary :: "real \<Rightarrow> int \<Rightarrow> real" where
  "cell_boundary lo di = (if 0 < di then lo + 1 else lo)"

text \<open>
  Modelled from the spec: the split of \<^verbatim>\<open>dep_current_zamb\<close>, which the source file does not
  define. The sub-segments of a step, each with its cell and its own displacement: the
  whole step in the cell \<open>ix\<close> without a crossing; otherwise the part up to the boundary in
  the cell \<open>ix\<close> and the part past it in the cell \<open>ix + di\<close>.
\<close>

definition split_trajectory :: "real \<Rightarrow> int \<Rightarrow> int \<Rightarrow> real \<Rightarrow> real \<Rightarrow> (int \<times> real) list" where
  "split_trajectory lo ix di x dx =
    (if di = 0 then [(ix, dx)]
     else [(ix, cell_boundary lo di - x), (ix + di, x + dx - cell_boundary lo di)])"

text \<open>
  Modelled from the spec: the longitudinal write of one sub-segment (the line quoted in the
  comment on line 168), \<^verbatim>\<open>dep_current_zamb\<close> itself being absent from the source file.
\<close>

definition dep_segment :: "real \<Rightarrow> int \<times> real \<Rightarrow> (int \<Rightarrow> real) \<Rightarrow> (int \<Rightarrow> real)" where
  "dep_segment qnx v J = J(fst v := J (fst v) + qnx * snd v)"

text \<open>
  Modelled from the spec: the longitudinal part of \<^verbatim>\<open>dep_current_zamb\<close>, absent from the
  source file: the sub-segments of the step are deposited one after the other.
\<close>

definition dep_current_zamb_x ::
  "real \<Rightarrow> int \<Rightarrow> int \<Rightarrow> real \<Rightarrow> real \<Rightarrow> real \<Rightarrow> (int \<Rightarrow> real) \<Rightarrow> (int \<Rightarrow> real)" where
  "dep_current_zamb_x lo ix di x dx qnx J =
     fold (dep_segment qnx) (split_trajectory lo ix di x dx) J"

section \<open>Concrete values\<close>

text \<open>A small species for concrete evaluations: no particle, unit steps, \<open>m_q = 2\<close>.\<close>

definition species0 :: t_species where
  "species0 = \<lparr>spec_part = [], spec_np = 0, spec_dt = 1, spec_dx = 1, spec_q = 1,
                spec_m_q = 2, spec_nx = 10, spec_energy = 0, spec_iter = 0,
                spec_moving_window = False, spec_bc_type = PART_BC_PERIODIC,
                spec_n_sort = 0\<rparr>"


text \<open>A particle at rest in the cell \<open>k\<close>, and one with momentum \<open>(1, 1, 1)\<close>.\<close>

definition part_at :: "int \<Rightarrow> t_part" where
  "part_at k = \<lparr>part_ix = k, part_x = 0, part_ux = 0, part_uy = 0, part_uz = 0\<rparr>"

definition part_moving :: "int \<Rightarrow> t_part" where
  "part_moving k = \<lparr>part_ix = k, part_x = 0, part_ux = 1, part_uy = 1, part_uz = 1\<rparr>"

text \<open>
  Collaborators for concrete evaluations: zero fields everywhere, offsets in \<open>[0, 1)\<close>, the
  longitudinal deposition of the previous section, no window move and no sorting.
\<close>

definition collab0 :: "(unit, int \<Rightarrow> real) collab" where
  "collab0 = \<lparr>interpolate_fld = (\<lambda>E B p. (zero3, zero3)),
              ltrim = (\<lambda>x. (if 1 \<le> x then 1 else 0) - (if x < 0 then 1 else 0)),
              dep_current_zamb = (\<lambda>ix di x dx qnx qvy qvz J. dep_current_zamb_x 0 ix di x dx qnx J),
              spec_move_window = (\<lambda>s. s),
              spec_sort = (\<lambda>s. s)\<rparr>"

definition emf0 :: "unit t_emf" where
  "emf0 = \<lparr>E_part = (), B_part = ()\<rparr>"

text \<open>Species for the concrete evaluations of the boundary handling.\<close>

definition species_abs :: t_species where
  "species_abs = species0\<lparr>spec_part := [part_at (- 1), part_at 2, part_at 10, part_at 5],
                          spec_np := 4, spec_bc_type := PART_BC_OPEN\<rparr>"

definition species_mw :: t_species where
  "species_mw = species0\<lparr>spec_part := [part_at (- 1), part_at 2], spec_np := 2,
                         spec_moving_window := True\<rparr>"

definition species_scan :: t_species where
  "species_scan = species0\<lparr>spec_part := [part_at 12, part_at 2, part_at (- 3)], spec_np := 3\<rparr>"

definition species_per :: t_species where
  "species_per = species0\<lparr>spec_part := [part_at (- 1), part_at 10, part_at 3, part_at 25], spec_np := 3\<rparr>"

definition species_two :: t_species where
  "species_two = species0\<lparr>spec_part := [part_moving 2, part_at 3], spec_np := 2\<rparr>"

section \<open>Properties of the momentum push\<close>

lemma boris_rotation_poly:
  fixes a b c x y z d :: real
  shows "(x + ((y + z * a - x * c) * (c * d) - (z + x * b - y * a) * (b * d)))\<^sup>2
       + (y + ((z + x * b - y * a) * (a * d) - (x + y * c - z * b) * (c * d)))\<^sup>2
       + (z + ((x + y * c - z * b) * (b * d) - (y + z * a - x * c) * (a * d)))\<^sup>2
       = x\<^sup>2 + y\<^sup>2 + z\<^sup>2
         + (d * (d * (1 + a\<^sup>2 + b\<^sup>2 + c\<^sup>2)) - 2 * d)
           * ((x\<^sup>2 + y\<^sup>2 + z\<^sup>2) * (a\<^sup>2 + b\<^sup>2 + c\<^sup>2) - (x * a + y * b + z * c)\<^sup>2)"
  by algebra

lemma boris_rotation_sq:
  fixes a b c x y z :: real
  defines "d \<equiv> 2 / (1 + a * a + b * b + c * c)"
  shows "(x + ((y + z * a - x * c) * (c * d) - (z + x * b - y * a) * (b * d)))\<^sup>2
       + (y + ((z + x * b - y * a) * (a * d) - (x + y * c - z * b) * (c * d)))\<^sup>2
       + (z + ((x + y * c - z * b) * (b * d) - (y + z * a - x * c) * (a * d)))\<^sup>2
       = x\<^sup>2 + y\<^sup>2 + z\<^sup>2"
proof -
  define D where "D = 1 + a\<^sup>2 + b\<^sup>2 + c\<^sup>2"
  have pos: "0 < D"
    by (simp add: D_def add_pos_nonneg)
  have "d = 2 / D"
    by (simp add: d_def D_def power2_eq_square)
  with pos have "d * D = 2"
    by simp
  then have "d * (d * (1 + a\<^sup>2 + b\<^sup>2 + c\<^sup>2)) - 2 * d = 0"
    by (simp add: D_def)
  then show ?thesis
    by (simp add: boris_rotation_poly)
qed

text \<open>
  C2. With a zero electric sample and any magnetic sample, any coefficient \<open>tem\<close> and any
  input momentum, the momentum stored back by the push has the Euclidean norm of the
  input momentum (over the reals).
\<close>

theorem push_zero_E_preserves_norm:
  "norm3 (part_ux (pr_part (advance_particle ltrim_f tem dt_dx q zero3 Bp p)))
         (part_uy (pr_part (advance_particle ltrim_f tem dt_dx q zero3 Bp p)))
         (part_uz (pr_part (advance_particle ltrim_f tem dt_dx q zero3 Bp p)))
   = norm3 (part_ux p) (part_uy p) (part_uz p)"
proof -
  define g where "g = tem / sqrt (1 + (part_ux p * part_ux p + part_uy p * part_uy p
                                        + part_uz p * part_uz p))"
  have "(part_ux (pr_part (advance_particle ltrim_f tem dt_dx q zero3 Bp p)))\<^sup>2
      + (part_uy (pr_part (advance_particle ltrim_f tem dt_dx q zero3 Bp p)))\<^sup>2
      + (part_uz (pr_part (advance_particle ltrim_f tem dt_dx q zero3 Bp p)))\<^sup>2
      = (part_ux p)\<^sup>2 + (part_uy p)\<^sup>2 + (part_uz p)\<^sup>2"
    using boris_rotation_sq [where x = "part_ux p" and y = "part_uy p" and z = "part_uz p"
        and a = "f3_x Bp * g" and b = "f3_y Bp * g" and c = "f3_z Bp * g"]
    by (simp add: advance_particle_def Let_def zero3_def g_def mult.commute add.assoc)
  then show ?thesis
    by (simp add: norm3_def power2_eq_square)
qed

text \<open>
  C3. With zero field samples one iteration stores the momentum it loaded; the displacement
  is \<open>dx = (dt/dx) \<cdot> ux / sqrt (1 + |u|\<^sup>2)\<close>; the cell delta is \<^verbatim>\<open>ltrim\<close> of the tentative
  offset \<open>x + dx\<close>; the stored offset and the cell delta add up to \<open>x + dx\<close>; and the stored
  cell index is \<open>ix + di\<close>. This holds for every function \<^verbatim>\<open>ltrim\<close>.
\<close>

theorem push_zero_fields_uniform_motion:
  "(let r = advance_particle ltrim_f (spec_tem s) (spec_dt_dx s) (spec_q s) zero3 zero3 p
    in part_ux (pr_part r) = part_ux p
     \<and> part_uy (pr_part r) = part_uy p
     \<and> part_uz (pr_part r) = part_uz p
     \<and> pr_dx r = (spec_dt s / spec_dx s)
                 * (part_ux p / sqrt (1 + ((part_ux p)\<^sup>2 + (part_uy p)\<^sup>2 + (part_uz p)\<^sup>2)))
     \<and> pr_di r = ltrim_f (part_x p + pr_dx r)
     \<and> part_x (pr_part r) + of_int (pr_di r) = part_x p + pr_dx r
     \<and> part_ix (pr_part r) = part_ix p + pr_di r)"
  by (simp add: advance_particle_def Let_def zero3_def spec_dt_dx_def power2_eq_square
      add.assoc)

text \<open>
  The energy term in exact arithmetic. With the locals read as real numbers, \<^verbatim>\<open>u2\<close> is the
  squared norm of \<open>ut = u + tem \<cdot> E\<close> and is not negative, \<^verbatim>\<open>gamma\<close> is the square root of
  \<open>1 + u2\<close> and is at least 1, and the term added to the energy is \<open>u2 / (1 + gamma)\<close> and is
  not negative. This is a fact about the exact reading only. In binary32 the square of a
  large momentum component overflows to infinity; then \<^verbatim>\<open>gamma\<close> is infinite too and the
  quotient of line 90 is not a number, so the inequalities do not carry over to every
  \<^verbatim>\<open>float\<close> input.
\<close>

lemma push_energy_term_exact_arithmetic:
  "(let r = advance_particle ltrim_f tem dt_dx q Ep Bp p
    in pr_u2 r = (part_ux p + f3_x Ep * tem)\<^sup>2 + (part_uy p + f3_y Ep * tem)\<^sup>2
                 + (part_uz p + f3_z Ep * tem)\<^sup>2
     \<and> 0 \<le> pr_u2 r
     \<and> pr_gamma r = sqrt (1 + pr_u2 r)
     \<and> 1 \<le> pr_gamma r
     \<and> pr_energy r = pr_u2 r / (1 + pr_gamma r)
     \<and> 0 \<le> pr_energy r)"
proof -
  define r where "r = advance_particle ltrim_f tem dt_dx q Ep Bp p"
  have u2: "pr_u2 r = (part_ux p + f3_x Ep * tem)\<^sup>2 + (part_uy p + f3_y Ep * tem)\<^sup>2
                 + (part_uz p + f3_z Ep * tem)\<^sup>2"
    by (simp add: r_def advance_particle_def Let_def power2_eq_square)
  have u2_nonneg: "0 \<le> pr_u2 r"
    unfolding u2 by simp
  have gamma: "pr_gamma r = sqrt (1 + pr_u2 r)"
    by (simp add: r_def advance_particle_def Let_def)
  have gamma_ge: "1 \<le> pr_gamma r"
    unfolding gamma using u2_nonneg by simp
  have e: "pr_energy r = pr_u2 r / (1 + pr_gamma r)"
    by (simp add: r_def advance_particle_def Let_def)
  have e_nonneg: "0 \<le> pr_energy r"
    unfolding e using u2_nonneg gamma_ge by simp
  from u2 u2_nonneg gamma gamma_ge e e_nonneg show ?thesis
    unfolding Let_def r_def [symmetric] by simp
qed

section \<open>The half-step coefficient\<close>

text \<open>
  C6, as stated, at the species with \<open>dt = 1\<close> and \<open>m_q = 2\<close>: the source computes
  \<open>tem = 1/4\<close>, whereas \<open>0.5 \<cdot> dt \<cdot> m_q = 1\<close>.
\<close>

theorem tem_not_half_dt_times_m_q:
  "spec_tem species0 = 1 / 4
   \<and> 0.5 * spec_dt species0 * spec_m_q species0 = 1
   \<and> spec_tem species0 \<noteq> 0.5 * spec_dt species0 * spec_m_q species0"
  by (simp add: spec_tem_def species0_def)

text \<open>
  C6, amended. The coefficient is half the time step divided by the parameter \<open>m_q\<close>:
  for \<open>m_q \<noteq> 0\<close>, \<open>tem \<cdot> m_q = 0.5 \<cdot> dt\<close>, that is \<open>tem = 0.5 \<cdot> dt \<cdot> (1 / m_q)\<close>; it is
  \<open>0.5 \<cdot> dt \<cdot> m_q\<close> exactly when \<open>dt = 0\<close> or \<open>m_q\<close> is 1 or -1.
\<close>

theorem tem_is_half_dt_over_m_q:
  assumes "spec_m_q s \<noteq> 0"
  shows "spec_tem s * spec_m_q s = 0.5 * spec_dt s
       \<and> spec_tem s = 0.5 * spec_dt s * (1 / spec_m_q s)
       \<and> (spec_tem s = 0.5 * spec_dt s * spec_m_q s
            \<longleftrightarrow> spec_dt s = 0 \<or> spec_m_q s = 1 \<or> spec_m_q s = - 1)"
proof -
  have "spec_tem s = 0.5 * spec_dt s * spec_m_q s
        \<longleftrightarrow> spec_dt s = spec_dt s * (spec_m_q s * spec_m_q s)"
    using assms by (simp add: spec_tem_def field_simps)
  also have "\<dots> \<longleftrightarrow> spec_dt s * ((spec_m_q s)\<^sup>2 - 1) = 0"
    by (simp add: algebra_simps power2_eq_square)
  also have "\<dots> \<longleftrightarrow> spec_dt s = 0 \<or> spec_m_q s = 1 \<or> spec_m_q s = - 1"
    by (simp add: power2_eq_1_iff)
  finally show ?thesis
    using assms by (simp add: spec_tem_def)
qed

theorem tem_is_half_dt_over_m_q_witness:
  "spec_m_q species0 \<noteq> 0
   \<and> spec_tem species0 * spec_m_q species0 = 0.5 * spec_dt species0
   \<and> spec_tem species0 = 1 / 4"
  using tem_is_half_dt_over_m_q [of species0]
  by (simp add: species0_def)

section \<open>The particle loop and the stored energy\<close>

lemma advance_loop_done:
  "\<not> i < spec_np s \<Longrightarrow> advance_loop X emf tem dt_dx qnx i s cur e = (s, cur, e)"
  by (simp add: advance_loop.simps [of X emf tem dt_dx qnx i s cur e])

lemma advance_loop_step:
  "i < spec_np s \<Longrightarrow>
   advance_loop X emf tem dt_dx qnx i s cur e =
     advance_loop X emf tem dt_dx qnx (i + 1)
       (s\<lparr>spec_part := (spec_part s)[nat i :=
            pr_part (particle_result X emf tem dt_dx (spec_q s) (spec_part s ! nat i))]\<rparr>)
       (dep_particle X emf tem dt_dx qnx (spec_q s) (spec_part s ! nat i) cur)
       (e + pr_energy (particle_result X emf tem dt_dx (spec_q s) (spec_part s ! nat i)))"
  by (simp add: advance_loop.simps [of X emf tem dt_dx qnx i s cur e] particle_result_def
      dep_particle_def Let_def split: prod.split)

lemma advance_loop_eq:
  "0 \<le> i \<Longrightarrow> i \<le> spec_np s \<Longrightarrow> spec_np s \<le> int (length (spec_part s)) \<Longrightarrow>
   advance_loop X emf tem dt_dx qnx i s cur e =
     (s\<lparr>spec_part := take (nat i) (spec_part s)
           @ map (\<lambda>p. pr_part (particle_result X emf tem dt_dx (spec_q s) p)) (drop (nat i) (live s))
           @ drop (nat (spec_np s)) (spec_part s)\<rparr>,
      fold (dep_particle X emf tem dt_dx qnx (spec_q s)) (drop (nat i) (live s)) cur,
      e + sum_list (map (\<lambda>p. pr_energy (particle_result X emf tem dt_dx (spec_q s) p))
                     (drop (nat i) (live s))))"
proof (induction "nat (spec_np s - i)" arbitrary: i s cur e)
  case 0
  then have "i = spec_np s" by simp
  then show ?case
    using advance_loop_done [of i s X emf tem dt_dx qnx cur e] by (simp add: live_def)
next
  case (Suc n)
  let ?xs = "spec_part s"
  let ?R = "particle_result X emf tem dt_dx (spec_q s)"
  from Suc.hyps(2) have True: "i < spec_np s" by simp
  define k where "k = nat i"
  define m where "m = nat (spec_np s)"
  let ?s1 = "s\<lparr>spec_part := ?xs[k := pr_part (?R (?xs ! k))]\<rparr>"
  have suc: "nat (i + 1) = Suc k"
    using Suc.prems by (simp add: k_def)
  have lt: "k < m" "m \<le> length ?xs"
    using Suc.prems True by (simp_all add: k_def m_def)
  then have lt': "k < length ?xs"
    by simp
  have ih: "advance_loop X emf tem dt_dx qnx (i + 1) ?s1 cur' e' =
     (?s1\<lparr>spec_part := take (Suc k) (spec_part ?s1)
           @ map (\<lambda>p. pr_part (?R p)) (drop (Suc k) (take m (spec_part ?s1)))
           @ drop m (spec_part ?s1)\<rparr>,
      fold (dep_particle X emf tem dt_dx qnx (spec_q s)) (drop (Suc k) (take m (spec_part ?s1))) cur',
      e' + sum_list (map (\<lambda>p. pr_energy (?R p)) (drop (Suc k) (take m (spec_part ?s1)))))"
    for cur' e'
    using Suc.hyps(1) [of ?s1 "i + 1" cur' e'] Suc.hyps(2) Suc.prems True
    by (simp add: live_def suc m_def)
  have tk: "take (Suc k) (?xs[k := v]) = take k ?xs @ [v]" for v
    using lt' by (simp add: take_Suc_conv_app_nth)
  have dr1: "drop (Suc k) (take m (?xs[k := v])) = drop (Suc k) (take m ?xs)" for v
    using lt by (simp add: take_update_swap)
  have dr2: "drop m (?xs[k := v]) = drop m ?xs" for v
    using lt by simp
  have dr: "drop k (take m ?xs) = ?xs ! k # drop (Suc k) (take m ?xs)"
    using lt Cons_nth_drop_Suc [of k "take m ?xs"] by simp
  show ?case
    unfolding advance_loop_step [OF True] k_def [symmetric] ih
    by (simp add: live_def k_def [symmetric] m_def [symmetric] tk dr1 dr2 dr)
qed


text \<open>
  The species after lines 22--204, when the live particles fit the buffer: every live slot
  holds the result of its particle's iteration, the energy is stored, the iteration counter
  is one more, and nothing else has changed.
\<close>

lemma spec_advance_particles_species:
  assumes "spec_np s \<le> int (length (spec_part s))"
  shows "fst (spec_advance_particles X emf s cur)
       = s\<lparr>spec_part :=
             map (\<lambda>p. pr_part (particle_result X emf (spec_tem s) (spec_dt_dx s) (spec_q s) p))
               (live s) @ drop (nat (spec_np s)) (spec_part s),
           spec_energy := spec_q s * spec_m_q s
             * (\<Sum>p\<leftarrow>live s. pr_energy
                  (particle_result X emf (spec_tem s) (spec_dt_dx s) (spec_q s) p))
             * spec_dx s,
           spec_iter := spec_iter s + 1\<rparr>"
proof (cases "0 \<le> spec_np s")
  case True
  show ?thesis
    using advance_loop_eq [of 0 s X emf "spec_tem s" "spec_dt_dx s" "spec_qnx s" cur 0] True assms
    by (simp add: spec_advance_particles_def Let_def)
next
  case False
  then have "live s = []" "drop (nat (spec_np s)) (spec_part s) = spec_part s"
    by (simp_all add: live_def)
  then show ?thesis
    using advance_loop_done [of 0 s X emf "spec_tem s" "spec_dt_dx s" "spec_qnx s" cur 0] False
    by (simp add: spec_advance_particles_def Let_def)
qed

lemma pr_energy_particle_result:
  "pr_energy (particle_result X emf tem dt_dx q p)
   = pr_u2 (particle_result X emf tem dt_dx q p) / (1 + pr_gamma (particle_result X emf tem dt_dx q p))"
  by (simp add: particle_result_def advance_particle_def Let_def split: prod.split)

text \<open>
  C7. When the live particles fit the buffer, the energy stored after the particle loop is
  \<open>q \<cdot> m_q \<cdot> S \<cdot> dx\<close>, where \<open>S\<close> is the sum over the live particles of \<open>u2 / (1 + gamma)\<close>,
  with \<open>u2\<close> and \<open>gamma\<close> the locals of the particle's iteration, and \<open>m_q\<close> is the species
  parameter that the specification calls the charge-to-mass ratio.
\<close>

theorem stored_energy_after_loop:
  assumes "spec_np s \<le> int (length (spec_part s))"
  shows "spec_energy (fst (spec_advance_particles X emf s cur))
       = spec_q s * spec_m_q s
         * (\<Sum>p\<leftarrow>live s. pr_u2 (particle_result X emf (spec_tem s) (spec_dt_dx s) (spec_q s) p)
                / (1 + pr_gamma (particle_result X emf (spec_tem s) (spec_dt_dx s) (spec_q s) p)))
         * spec_dx s"
proof (cases "0 \<le> spec_np s")
  case True
  show ?thesis
    using advance_loop_eq [of 0 s X emf "spec_tem s" "spec_dt_dx s" "spec_qnx s" cur 0] True assms
    by (simp add: spec_advance_particles_def Let_def pr_energy_particle_result)
next
  case False
  then have "live s = []"
    by (simp add: live_def)
  then show ?thesis
    using advance_loop_done [of 0 s X emf "spec_tem s" "spec_dt_dx s" "spec_qnx s" cur 0] False
    by (simp add: spec_advance_particles_def Let_def)
qed

theorem stored_energy_after_loop_witness:
  "spec_np species_two \<le> int (length (spec_part species_two))
   \<and> live species_two = [part_moving 2, part_at 3]
   \<and> spec_energy (fst (spec_advance_particles collab0 emf0 species_two (\<lambda>c. 0))) = 2"
proof -
  have h: "spec_np species_two \<le> int (length (spec_part species_two))"
    by (simp add: species_two_def species0_def)
  have l: "live species_two = [part_moving 2, part_at 3]"
    by (simp add: live_def species_two_def species0_def)
  have q: "spec_q species_two = 1" "spec_m_q species_two = 2" "spec_dx species_two = 1"
    by (simp_all add: species_two_def species0_def)
  from stored_energy_after_loop [OF h, of collab0 emf0 "\<lambda>c. 0"] h l show ?thesis
    by (simp add: q part_moving_def part_at_def collab0_def particle_result_def
        advance_particle_def Let_def zero3_def)
qed

section \<open>The absorbing scan\<close>

lemma drop_take_last_slot:
  assumes "i < n" "n \<le> length xs"
  shows "mset (drop i (take (n - 1) (xs[i := xs ! (n - 1)]))) + {#xs ! i#}
         = mset (drop i (take n xs))"
proof (cases "i = n - 1")
  case True
  with assms have n: "n = Suc i" and i: "i < length xs" by simp_all
  have "drop i (take n xs) = [xs ! i]"
    using i by (simp add: n take_Suc_conv_app_nth)
  with True show ?thesis by simp
next
  case False
  with assms have lt: "i < n - 1" by simp
  define ys where "ys = take (n - 1) xs"
  have len: "length ys = n - 1" using assms by (simp add: ys_def)
  have tk: "take n xs = ys @ [xs ! (n - 1)]"
    using assms take_Suc_conv_app_nth [of "n - 1" xs] by (simp add: ys_def)
  have "take (n - 1) (xs[i := xs ! (n - 1)]) = ys[i := xs ! (n - 1)]"
    by (simp add: ys_def take_update_swap)
  also have "\<dots> = take i ys @ xs ! (n - 1) # drop (Suc i) ys"
    using lt len by (simp add: upd_conv_take_nth_drop)
  finally have l: "drop i (take (n - 1) (xs[i := xs ! (n - 1)])) = xs ! (n - 1) # drop (Suc i) ys"
    using lt len by simp
  have "drop i (take n xs) = drop i ys @ [xs ! (n - 1)]"
    using lt len by (simp add: tk)
  also have "drop i ys = ys ! i # drop (Suc i) ys"
    using lt len by (simp add: Cons_nth_drop_Suc)
  also have "ys ! i = xs ! i"
    using lt by (simp add: ys_def)
  finally show ?thesis
    using l by simp
qed


lemma absorb_scan_done:
  "\<not> i < spec_np s \<Longrightarrow> absorb_scan nx0 i s = s"
  by (simp add: absorb_scan.simps [of nx0 i s])

lemma absorb_scan_remove:
  "i < spec_np s \<Longrightarrow> part_ix (spec_part s ! nat i) < 0 \<or> nx0 \<le> part_ix (spec_part s ! nat i) \<Longrightarrow>
   absorb_scan nx0 i s = absorb_scan nx0 i
     (s\<lparr>spec_np := spec_np s - 1,
        spec_part := (spec_part s)[nat i := spec_part s ! nat (spec_np s - 1)]\<rparr>)"
  by (simp add: absorb_scan.simps [of nx0 i s])

lemma absorb_scan_keep:
  "i < spec_np s \<Longrightarrow> \<not> (part_ix (spec_part s ! nat i) < 0 \<or> nx0 \<le> part_ix (spec_part s ! nat i)) \<Longrightarrow>
   absorb_scan nx0 i s = absorb_scan nx0 (i + 1) s"
  by (simp add: absorb_scan.simps [of nx0 i s])

lemma absorb_scan_np:
  "i \<le> spec_np s \<Longrightarrow>
   i \<le> spec_np (absorb_scan nx0 i s) \<and> spec_np (absorb_scan nx0 i s) \<le> spec_np s"
proof (induction nx0 i s rule: absorb_scan.induct)
  case (1 nx0 i s)
  show ?case
  proof (cases "i < spec_np s")
    case False
    with "1.prems" show ?thesis
      by (simp add: absorb_scan_done)
  next
    case True
    show ?thesis
    proof (cases "part_ix (spec_part s ! nat i) < 0 \<or> nx0 \<le> part_ix (spec_part s ! nat i)")
      case out: True
      from "1.IH"(1) [OF True out] True
      show ?thesis
        by (simp add: absorb_scan_remove [OF True out])
    next
      case inside: False
      from "1.IH"(2) [OF True inside] True
      show ?thesis
        by (simp add: absorb_scan_keep [OF True inside])
    qed
  qed
qed

lemma absorb_scan_frame:
  "absorb_scan nx0 i s =
     s\<lparr>spec_part := spec_part (absorb_scan nx0 i s), spec_np := spec_np (absorb_scan nx0 i s)\<rparr>"
proof (induction nx0 i s rule: absorb_scan.induct)
  case (1 nx0 i s)
  show ?case
  proof (cases "i < spec_np s")
    case False
    then show ?thesis
      by (simp add: absorb_scan.simps [of nx0 i s])
  next
    case True
    show ?thesis
    proof (cases "part_ix (spec_part s ! nat i) < 0 \<or> nx0 \<le> part_ix (spec_part s ! nat i)")
      case out: True
      have "absorb_scan nx0 i s = absorb_scan nx0 i
            (s\<lparr>spec_np := spec_np s - 1,
               spec_part := (spec_part s)[nat i := spec_part s ! nat (spec_np s - 1)]\<rparr>)"
        using True out by (simp add: absorb_scan.simps [of nx0 i s])
      with "1.IH"(1) [OF True out] show ?thesis
        by simp
    next
      case inside: False
      have "absorb_scan nx0 i s = absorb_scan nx0 (i + 1) s"
        using True inside by (simp add: absorb_scan.simps [of nx0 i s])
      with "1.IH"(2) [OF True inside] show ?thesis
        by simp
    qed
  qed
qed

lemma absorb_scan_inv:
  "0 \<le> i \<Longrightarrow> i \<le> spec_np s \<Longrightarrow> spec_np s \<le> int (length (spec_part s)) \<Longrightarrow>
   length (spec_part (absorb_scan nx0 i s)) = length (spec_part s)
   \<and> mset (live (absorb_scan nx0 i s))
     = mset (take (nat i) (spec_part s))
       + filter_mset (in_range nx0) (mset (drop (nat i) (live s)))"
proof (induction nx0 i s rule: absorb_scan.induct)
  case (1 nx0 i s)
  let ?xs = "spec_part s"
  show ?case
  proof (cases "i < spec_np s")
    case False
    with "1.prems" have "i = spec_np s" by simp
    with False show ?thesis
      by (simp add: absorb_scan_done live_def)
  next
    case True
    show ?thesis
    proof (cases "part_ix (?xs ! nat i) < 0 \<or> nx0 \<le> part_ix (?xs ! nat i)")
      case out: True
      let ?s1 = "s\<lparr>spec_np := spec_np s - 1,
                    spec_part := ?xs[nat i := ?xs ! nat (spec_np s - 1)]\<rparr>"
      have eq: "absorb_scan nx0 i s = absorb_scan nx0 i ?s1"
        using True out by (simp add: absorb_scan.simps [of nx0 i s])
      have ih: "length (spec_part (absorb_scan nx0 i ?s1)) = length ?xs
        \<and> mset (live (absorb_scan nx0 i ?s1))
          = mset (take (nat i) (spec_part ?s1))
            + filter_mset (in_range nx0) (mset (drop (nat i) (live ?s1)))"
        using "1.IH"(1) [OF True out] "1.prems" True by simp
      have nat1: "nat (spec_np s - 1) = nat (spec_np s) - 1"
        by simp
      have k: "mset (drop (nat i) (live ?s1)) + {#?xs ! nat i#} = mset (drop (nat i) (live s))"
        using drop_take_last_slot [of "nat i" "nat (spec_np s)" ?xs] "1.prems" True
        by (simp add: live_def nat1)
      have "\<not> in_range nx0 (?xs ! nat i)"
        using out by (auto simp: in_range_def)
      with k have "filter_mset (in_range nx0) (mset (drop (nat i) (live ?s1)))
                 = filter_mset (in_range nx0) (mset (drop (nat i) (live s)))"
        by (metis filter_mset_add_mset add_mset_add_single union_mset_add_mset_right)
      with ih show ?thesis
        by (simp add: eq)
    next
      case inside: False
      have eq: "absorb_scan nx0 i s = absorb_scan nx0 (i + 1) s"
        using True inside by (simp add: absorb_scan.simps [of nx0 i s])
      have ih: "length (spec_part (absorb_scan nx0 (i + 1) s)) = length ?xs
        \<and> mset (live (absorb_scan nx0 (i + 1) s))
          = mset (take (nat (i + 1)) ?xs)
            + filter_mset (in_range nx0) (mset (drop (nat (i + 1)) (live s)))"
        using "1.IH"(2) [OF True inside] "1.prems" True by simp
      have suc: "nat (i + 1) = Suc (nat i)"
        using "1.prems" by simp
      have lt: "nat i < length ?xs" "nat i < length (live s)"
        using "1.prems" True by (simp_all add: live_def)
      have tk: "take (Suc (nat i)) ?xs = take (nat i) ?xs @ [?xs ! nat i]"
        using lt by (simp add: take_Suc_conv_app_nth)
      have dr: "drop (nat i) (live s) = ?xs ! nat i # drop (Suc (nat i)) (live s)"
        using lt Cons_nth_drop_Suc [of "nat i" "live s"] "1.prems" True
        by (simp add: live_def)
      have "in_range nx0 (?xs ! nat i)"
        using inside by (auto simp: in_range_def)
      with ih show ?thesis
        by (simp add: eq suc tk dr)
    qed
  qed
qed


text \<open>
  Every recursive call of the scan, that is every iteration of the loop, is made with
  \<open>i < np\<close> and decreases \<open>np - i\<close>; hence the recursion is well founded.
\<close>

lemma absorb_scan_variant:
  "absorb_scan_rel (nx0', i', s') (nx0, i, s) \<Longrightarrow>
   spec_np s' - i' < spec_np s - i \<and> 0 < spec_np s - i"
  by (erule absorb_scan_rel.cases) auto

lemma absorb_scan_total: "absorb_scan_dom (nx0, i, s)"
proof -
  have "wfp absorb_scan_rel"
  proof (rule wfp_if_convertible_to_nat)
    fix a b :: "int \<times> int \<times> t_species"
    assume "absorb_scan_rel a b"
    then show "(case a of (nx0, i, s) \<Rightarrow> nat (spec_np s - i))
             < (case b of (nx0, i, s) \<Rightarrow> nat (spec_np s - i))"
      using absorb_scan_variant [of "fst a" "fst (snd a)" "snd (snd a)"
          "fst b" "fst (snd b)" "snd (snd b)"]
      by (simp add: case_prod_beta)
  qed
  then show ?thesis
    by (rule accp_wfpD)
qed

lemma live_length:
  "0 \<le> spec_np s \<Longrightarrow> spec_np s \<le> int (length (spec_part s)) \<Longrightarrow> int (length (live s)) = spec_np s"
  by (simp add: live_def)

lemma absorb_scan_result:
  assumes "spec_np s \<le> int (length (spec_part s))"
  shows "mset (live (absorb_scan nx0 0 s)) = filter_mset (in_range nx0) (mset (live s))
       \<and> spec_np (absorb_scan nx0 0 s)
         = spec_np s - int (length (filter (\<lambda>p. \<not> in_range nx0 p) (live s)))"
proof (cases "0 \<le> spec_np s")
  case False
  then have "absorb_scan nx0 0 s = s" "live s = []"
    by (simp_all add: absorb_scan_done live_def)
  then show ?thesis by simp
next
  case True
  let ?s' = "absorb_scan nx0 0 s"
  from absorb_scan_inv [of 0 s nx0] True assms
  have len: "length (spec_part ?s') = length (spec_part s)"
    and ms: "mset (live ?s') = filter_mset (in_range nx0) (mset (live s))"
    by simp_all
  from absorb_scan_np [of 0 s nx0] True
  have np: "0 \<le> spec_np ?s'" "spec_np ?s' \<le> spec_np s"
    by simp_all
  have "int (length (live ?s')) = spec_np ?s'"
    using np len assms by (intro live_length) simp_all
  moreover have "length (live ?s') = length (filter (in_range nx0) (live s))"
    using ms by (metis mset_filter size_mset)
  moreover have "length (live s)
      = length (filter (in_range nx0) (live s)) + length (filter (\<lambda>p. \<not> in_range nx0 p) (live s))"
    by (simp add: sum_length_filter_compl)
  moreover have "int (length (live s)) = spec_np s"
    using True assms by (rule live_length)
  ultimately have "spec_np ?s' = spec_np s - int (length (filter (\<lambda>p. \<not> in_range nx0 p) (live s)))"
    by linarith
  with ms show ?thesis by simp
qed

text \<open>
  C4. With open boundaries, when the live particles handed to the scan (the species itself,
  or the result of the window move when the moving-window flag is set) fit the buffer:
  after the boundary pass the live particles are, as a multiset, those live particles whose
  cell index is in \<open>[0, nx0)\<close>, and the live count has dropped by the number of live
  particles outside that range. Nothing is said about the order of the survivors. The
  concrete instance with the cell indices \<open>[-1, 2, 10, 5]\<close> and \<open>nx0 = 10\<close> follows the theorem.
\<close>

theorem absorbing_scan_keeps_in_range:
  assumes "spec_bc_type s = PART_BC_OPEN"
    and "spec_np (move_window_if_set X s) \<le> int (length (spec_part (move_window_if_set X s)))"
  shows "mset (live (check_boundaries X nx0 s))
         = filter_mset (in_range nx0) (mset (live (move_window_if_set X s)))
       \<and> spec_np (check_boundaries X nx0 s)
         = spec_np (move_window_if_set X s)
           - int (length (filter (\<lambda>p. \<not> in_range nx0 p) (live (move_window_if_set X s))))"
  using absorb_scan_result [OF assms(2), of nx0] assms(1)
  by (simp add: check_boundaries_def)

theorem absorbing_scan_keeps_in_range_witness:
  "spec_bc_type species_abs = PART_BC_OPEN
   \<and> move_window_if_set collab0 species_abs = species_abs
   \<and> spec_np species_abs \<le> int (length (spec_part species_abs))
   \<and> spec_nx species_abs = 10
   \<and> map part_ix (live species_abs) = [- 1, 2, 10, 5]
   \<and> mset (live (check_boundaries collab0 (spec_nx species_abs) species_abs))
       = {#part_at 2, part_at 5#}
   \<and> spec_np (check_boundaries collab0 (spec_nx species_abs) species_abs)
       = spec_np species_abs - 2"
proof -
  have m: "move_window_if_set collab0 species_abs = species_abs"
    by (simp add: move_window_if_set_def species_abs_def species0_def)
  have h: "spec_bc_type species_abs = PART_BC_OPEN"
    "spec_np (move_window_if_set collab0 species_abs)
       \<le> int (length (spec_part (move_window_if_set collab0 species_abs)))"
    by (simp_all add: m) (simp_all add: species_abs_def species0_def)
  have n: "spec_nx species_abs = 10"
    by (simp add: species_abs_def species0_def)
  have l: "live species_abs = [part_at (- 1), part_at 2, part_at 10, part_at 5]"
    by (simp add: live_def species_abs_def species0_def)
  from absorbing_scan_keeps_in_range [OF h, of "spec_nx species_abs"] h show ?thesis
    by (simp add: m n l in_range_def part_at_def)
qed

text \<open>
  C9. With the moving-window flag set, whatever the boundary-condition kind is, the boundary
  pass is the absorbing scan run on the species returned by the window move (whose live
  particles are assumed to fit its buffer): the survivors are the live particles in
  \<open>[0, nx0)\<close> and the count drops by the number of the others; the periodic wrap is not
  run. The concrete instance has the periodic kind and loses a particle.
\<close>

theorem moving_window_forces_absorbing:
  assumes "spec_moving_window s"
    and "spec_np (spec_move_window X s) \<le> int (length (spec_part (spec_move_window X s)))"
  shows "check_boundaries X nx0 s = absorb_scan nx0 0 (spec_move_window X s)
       \<and> mset (live (check_boundaries X nx0 s))
         = filter_mset (in_range nx0) (mset (live (spec_move_window X s)))
       \<and> spec_np (check_boundaries X nx0 s)
         = spec_np (spec_move_window X s)
           - int (length (filter (\<lambda>p. \<not> in_range nx0 p) (live (spec_move_window X s))))"
  using absorb_scan_result [OF assms(2), of nx0] assms(1)
  by (simp add: check_boundaries_def move_window_if_set_def)

theorem moving_window_forces_absorbing_witness:
  "spec_moving_window species_mw
   \<and> spec_np (spec_move_window collab0 species_mw)
       \<le> int (length (spec_part (spec_move_window collab0 species_mw)))
   \<and> spec_bc_type species_mw = PART_BC_PERIODIC
   \<and> map part_ix (live species_mw) = [- 1, 2]
   \<and> live (check_boundaries collab0 10 species_mw) = [part_at 2]
   \<and> spec_np (check_boundaries collab0 10 species_mw) = 1"
proof -
  have h: "spec_moving_window species_mw"
    "spec_np (spec_move_window collab0 species_mw)
       \<le> int (length (spec_part (spec_move_window collab0 species_mw)))"
    by (simp_all add: species_mw_def species0_def collab0_def)
  have "check_boundaries collab0 10 species_mw
        = absorb_scan 10 0 (spec_move_window collab0 species_mw)"
    using moving_window_forces_absorbing [OF h, of 10] by simp
  then show ?thesis
    by (simp add: species_mw_def species0_def collab0_def part_at_def live_def
        absorb_scan.simps)
qed

text \<open>
  C10. For every non-negative particle count and every buffer content the absorbing scan
  started at \<open>i = 0\<close> terminates (the input is in the domain of the recursion, whose every
  call decreases \<open>np - i\<close>, see \<open>absorb_scan_variant\<close>), and the final count is between 0 and
  the initial count.
\<close>

theorem absorb_scan_terminates:
  assumes "0 \<le> spec_np s"
  shows "absorb_scan_dom (nx0, 0, s)
       \<and> 0 \<le> spec_np (absorb_scan nx0 0 s)
       \<and> spec_np (absorb_scan nx0 0 s) \<le> spec_np s"
  using absorb_scan_np [of 0 s nx0] assms absorb_scan_total [of nx0 0 s]
  by simp

theorem absorb_scan_terminates_witness:
  "0 \<le> spec_np species_scan
   \<and> absorb_scan_dom (10, 0, species_scan)
   \<and> spec_np species_scan = 3
   \<and> spec_np (absorb_scan 10 0 species_scan) = 1"
proof -
  have h: "0 \<le> spec_np species_scan"
    by (simp add: species_scan_def species0_def)
  have "spec_np (absorb_scan 10 0 species_scan) = 1"
    by (simp add: species_scan_def species0_def part_at_def absorb_scan.simps)
  with absorb_scan_terminates [OF h, of 10] show ?thesis
    by (simp add: species_scan_def species0_def)
qed

section \<open>The periodic wrap\<close>

lemma periodic_wrap_done:
  "\<not> i < spec_np s \<Longrightarrow> periodic_wrap nx0 i s = s"
  by (simp add: periodic_wrap.simps [of nx0 i s])

lemma periodic_wrap_step:
  "i < spec_np s \<Longrightarrow>
   periodic_wrap nx0 i s = periodic_wrap nx0 (i + 1)
     (s\<lparr>spec_part := (spec_part s)[nat i := (spec_part s ! nat i)
          \<lparr>part_ix := part_ix (spec_part s ! nat i)
              + ((if part_ix (spec_part s ! nat i) < 0 then nx0 else 0)
                 - (if part_ix (spec_part s ! nat i) \<ge> nx0 then nx0 else 0))\<rparr>]\<rparr>)"
  by (simp add: periodic_wrap.simps [of nx0 i s])

lemma periodic_wrap_eq:
  "0 \<le> i \<Longrightarrow> i \<le> spec_np s \<Longrightarrow> spec_np s \<le> int (length (spec_part s)) \<Longrightarrow>
   periodic_wrap nx0 i s =
     s\<lparr>spec_part := take (nat i) (spec_part s) @ map (wrap_ix nx0) (drop (nat i) (live s))
                     @ drop (nat (spec_np s)) (spec_part s)\<rparr>"
proof (induction nx0 i s rule: periodic_wrap.induct)
  case (1 nx0 i s)
  let ?xs = "spec_part s"
  show ?case
  proof (cases "i < spec_np s")
    case False
    with "1.prems" have "i = spec_np s" by simp
    with False show ?thesis
      by (simp add: periodic_wrap_done live_def)
  next
    case True
    let ?s1 = "s\<lparr>spec_part := ?xs[nat i := wrap_ix nx0 (?xs ! nat i)]\<rparr>"
    have eq: "periodic_wrap nx0 i s = periodic_wrap nx0 (i + 1) ?s1"
      using periodic_wrap_step [OF True, of nx0] by (simp add: wrap_ix_def)
    have ih: "periodic_wrap nx0 (i + 1) ?s1 =
      ?s1\<lparr>spec_part := take (nat (i + 1)) (spec_part ?s1)
             @ map (wrap_ix nx0) (drop (nat (i + 1)) (live ?s1))
             @ drop (nat (spec_np ?s1)) (spec_part ?s1)\<rparr>"
      using "1.IH" [OF True] "1.prems" True by (simp add: wrap_ix_def)
    define k where "k = nat i"
    define m where "m = nat (spec_np s)"
    have suc: "nat (i + 1) = Suc k"
      using "1.prems" by (simp add: k_def)
    have lt: "k < m" "m \<le> length ?xs"
      using "1.prems" True by (simp_all add: k_def m_def)
    then have lt': "k < length ?xs"
      by simp
    have tk: "take (Suc k) (?xs[k := wrap_ix nx0 (?xs ! k)]) = take k ?xs @ [wrap_ix nx0 (?xs ! k)]"
      using lt' by (simp add: take_Suc_conv_app_nth)
    have dr1: "drop (Suc k) (take m (?xs[k := wrap_ix nx0 (?xs ! k)])) = drop (Suc k) (take m ?xs)"
      using lt by (simp add: take_update_swap)
    have dr2: "drop m (?xs[k := wrap_ix nx0 (?xs ! k)]) = drop m ?xs"
      using lt by simp
    have dr: "drop k (take m ?xs) = ?xs ! k # drop (Suc k) (take m ?xs)"
      using lt Cons_nth_drop_Suc [of k "take m ?xs"] by simp
    show ?thesis
      unfolding eq ih
      by (simp add: live_def suc k_def [symmetric] m_def [symmetric] tk dr1 dr2 dr)
  qed
qed


lemma periodic_wrap_result:
  assumes "spec_np s \<le> int (length (spec_part s))"
  shows "periodic_wrap nx0 0 s
         = s\<lparr>spec_part := map (wrap_ix nx0) (live s) @ drop (nat (spec_np s)) (spec_part s)\<rparr>"
proof (cases "0 \<le> spec_np s")
  case True
  with periodic_wrap_eq [of 0 s nx0] assms show ?thesis
    by simp
next
  case False
  then show ?thesis
    by (simp add: periodic_wrap_done live_def)
qed

text \<open>
  For a cell count \<open>0 \<le> nx0\<close> the update of line 231 stays inside the range of a 32-bit
  \<^verbatim>\<open>int\<close> whenever the index and \<open>nx0\<close> are inside it: the difference of the two conditional
  terms is \<open>nx0\<close>, 0 or \<open>- nx0\<close>, and the new index lies between the old one and the range
  \<open>[0, nx0)\<close>.
\<close>

lemma wrap_ix_no_overflow:
  assumes "0 \<le> nx0" and "nx0 < 2 ^ 31" and "- (2 ^ 31) \<le> part_ix p" and "part_ix p < 2 ^ 31"
  shows "- (2 ^ 31) \<le> part_ix (wrap_ix nx0 p) \<and> part_ix (wrap_ix nx0 p) < 2 ^ 31"
  using assms by (simp add: wrap_ix_def)

text \<open>
  C5. In periodic mode (no moving window, periodic kind), when the live particles fit the
  buffer: the boundary pass returns the species with, in every live slot, the particle whose
  cell index has \<open>nx0\<close> added if it was negative and \<open>nx0\<close> subtracted if it was at or beyond
  \<open>nx0\<close>, every other member of the particle, every slot past the live ones and every other
  member of the species (the particle count among them) being as before. For \<open>0 \<le> nx0\<close> the
  index -1 becomes \<open>nx0 - 1\<close> and the index \<open>nx0\<close> becomes 0.
\<close>

theorem periodic_pass_wraps_indices:
  assumes "\<not> spec_moving_window s" and "spec_bc_type s = PART_BC_PERIODIC"
    and "spec_np s \<le> int (length (spec_part s))"
  shows "check_boundaries X nx0 s
         = s\<lparr>spec_part :=
               map (\<lambda>p. p\<lparr>part_ix := part_ix p + (if part_ix p < 0 then nx0 else 0)
                                             - (if nx0 \<le> part_ix p then nx0 else 0)\<rparr>) (live s)
               @ drop (nat (spec_np s)) (spec_part s)\<rparr>
       \<and> spec_np (check_boundaries X nx0 s) = spec_np s
       \<and> (\<forall>j. 0 \<le> j \<and> j < spec_np s \<longrightarrow>
            (let p = spec_part s ! nat j; p' = spec_part (check_boundaries X nx0 s) ! nat j
             in part_ix p' = part_ix p + (if part_ix p < 0 then nx0 else 0)
                                     - (if nx0 \<le> part_ix p then nx0 else 0)
              \<and> part_x p' = part_x p \<and> part_ux p' = part_ux p
              \<and> part_uy p' = part_uy p \<and> part_uz p' = part_uz p
              \<and> (0 \<le> nx0 \<and> part_ix p = - 1 \<longrightarrow> part_ix p' = nx0 - 1)
              \<and> (0 \<le> nx0 \<and> part_ix p = nx0 \<longrightarrow> part_ix p' = 0)))"
proof -
  let ?w = "\<lambda>p. p\<lparr>part_ix := part_ix p + (if part_ix p < 0 then nx0 else 0)
                                       - (if nx0 \<le> part_ix p then nx0 else 0)\<rparr>"
  have w: "wrap_ix nx0 = ?w"
    by (rule ext) (simp add: wrap_ix_def)
  have eq: "check_boundaries X nx0 s
         = s\<lparr>spec_part := map ?w (live s) @ drop (nat (spec_np s)) (spec_part s)\<rparr>"
    using periodic_wrap_result [OF assms(3), of nx0] assms(1,2)
    by (simp add: check_boundaries_def w)
  have nth: "spec_part (check_boundaries X nx0 s) ! nat j = ?w (spec_part s ! nat j)"
    if "0 \<le> j" "j < spec_np s" for j
  proof -
    from that assms(3) have "nat j < length (live s)"
      by (simp add: live_def)
    then show ?thesis
      unfolding eq by (simp add: nth_append live_def)
  qed
  show ?thesis
  proof (intro conjI allI impI)
    show "check_boundaries X nx0 s
         = s\<lparr>spec_part := map ?w (live s) @ drop (nat (spec_np s)) (spec_part s)\<rparr>"
      by (rule eq)
    show "spec_np (check_boundaries X nx0 s) = spec_np s"
      unfolding eq by simp
  next
    fix j assume "0 \<le> j \<and> j < spec_np s"
    then have "spec_part (check_boundaries X nx0 s) ! nat j = ?w (spec_part s ! nat j)"
      using nth by simp
    then show "let p = spec_part s ! nat j; p' = spec_part (check_boundaries X nx0 s) ! nat j
             in part_ix p' = part_ix p + (if part_ix p < 0 then nx0 else 0)
                                     - (if nx0 \<le> part_ix p then nx0 else 0)
              \<and> part_x p' = part_x p \<and> part_ux p' = part_ux p
              \<and> part_uy p' = part_uy p \<and> part_uz p' = part_uz p
              \<and> (0 \<le> nx0 \<and> part_ix p = - 1 \<longrightarrow> part_ix p' = nx0 - 1)
              \<and> (0 \<le> nx0 \<and> part_ix p = nx0 \<longrightarrow> part_ix p' = 0)"
      by (simp add: Let_def)
  qed
qed

theorem periodic_pass_wraps_indices_witness:
  "\<not> spec_moving_window species_per
   \<and> spec_bc_type species_per = PART_BC_PERIODIC
   \<and> spec_np species_per \<le> int (length (spec_part species_per))
   \<and> spec_part species_per = [part_at (- 1), part_at 10, part_at 3, part_at 25]
   \<and> spec_np species_per = 3
   \<and> spec_part (check_boundaries collab0 10 species_per)
       = [part_at 9, part_at 0, part_at 3, part_at 25]
   \<and> spec_np (check_boundaries collab0 10 species_per) = 3"
proof -
  have h: "\<not> spec_moving_window species_per" "spec_bc_type species_per = PART_BC_PERIODIC"
    "spec_np species_per \<le> int (length (spec_part species_per))"
    by (simp_all add: species_per_def species0_def)
  have l: "live species_per = [part_at (- 1), part_at 10, part_at 3]"
    by (simp add: live_def species_per_def species0_def)
  from periodic_pass_wraps_indices [OF h, of collab0 10]
  have "check_boundaries collab0 10 species_per
         = species_per\<lparr>spec_part :=
               map (\<lambda>p. p\<lparr>part_ix := part_ix p + (if part_ix p < 0 then 10 else 0)
                                             - (if 10 \<le> part_ix p then 10 else 0)\<rparr>) (live species_per)
               @ drop (nat (spec_np species_per)) (spec_part species_per)\<rparr>"
    by (rule conjunct1)
  then show ?thesis
    by (simp add: l) (simp add: species_per_def species0_def part_at_def)
qed

section \<open>The split deposition\<close>

text \<open>
  C1. For a step that crosses one cell boundary (\<open>di\<close> is 1 or -1), whatever the range of the
  offsets and hence the place of the split: the two longitudinal contributions, written to
  the cells \<open>ix\<close> and \<open>ix + di\<close>, add up to the single contribution written to \<open>ix\<close> for the
  undivided step, which is \<open>qnx \<cdot> dx\<close>; no other cell is written.
\<close>

theorem split_deposit_sums_to_unsplit:
  assumes "di = 1 \<or> di = - 1"
  shows "(let J2 = dep_current_zamb_x lo ix di x dx qnx J;
              J1 = dep_current_zamb_x lo ix 0 x dx qnx J
          in (J2 ix - J ix) + (J2 (ix + di) - J (ix + di)) = J1 ix - J ix
           \<and> J1 ix - J ix = qnx * dx
           \<and> (\<forall>c. c \<noteq> ix \<and> c \<noteq> ix + di \<longrightarrow> J2 c = J c)
           \<and> (\<forall>c. c \<noteq> ix \<longrightarrow> J1 c = J c))"
  using assms
  by (auto simp: dep_current_zamb_x_def split_trajectory_def dep_segment_def Let_def
      algebra_simps)

theorem split_deposit_sums_to_unsplit_witness:
  "((1::int) = 1 \<or> (1::int) = - 1)
   \<and> dep_current_zamb_x 0 3 1 (3 / 4) (1 / 2) 2 (\<lambda>c. 0) 3 = 1 / 2
   \<and> dep_current_zamb_x 0 3 1 (3 / 4) (1 / 2) 2 (\<lambda>c. 0) 4 = 1 / 2
   \<and> dep_current_zamb_x 0 3 0 (3 / 4) (1 / 2) 2 (\<lambda>c. 0) 3 = 1"
proof -
  have h: "(1::int) = 1 \<or> (1::int) = - 1" by simp
  have a: "dep_current_zamb_x 0 3 1 (3 / 4) (1 / 2) 2 (\<lambda>c. 0) 3 = 1 / 2"
    by (simp add: dep_current_zamb_x_def split_trajectory_def dep_segment_def cell_boundary_def)
  from split_deposit_sums_to_unsplit [OF h, of 0 3 "3 / 4" "1 / 2" 2 "\<lambda>c. 0"] a
  show ?thesis
    by (simp add: Let_def)
qed

end
